theory Spec2Isabelle
  imports Complex_Main
begin

section \<open>The snake game core: data model\<close>

text \<open>
  The embedding follows \<open>packages/game-core\<close> (the file with \<open>createInitialState\<close>,
  \<open>changeDirection\<close>, \<open>step\<close> and \<open>spawnFood\<close>, and its \<open>types\<close> module).

  Modelling decisions:
  \<^item> TypeScript's \<open>number\<close> is modelled by \<open>int\<close>: coordinates, sizes, score and tick
    are integers, as the data model of the specification says. Fractions and
    infinities are outside the model.
  \<^item> A \<open>number\<close> is an IEEE 754 double, which counts integers exactly up to \<open>2^53\<close>
    only. The two counters of a game, \<open>tick\<close> and \<open>score\<close>, grow without bound, so the
    additions \<open>tick + 1\<close> and \<open>score + 10\<close> of \<open>step\<close> are modelled with the rounding of
    doubles (\<open>js_add\<close>). Coordinates and board sizes are taken exact: a board is
    enumerated cell by cell by \<open>spawnFood\<close> and stays far below \<open>2^53\<close>.
  \<^item> The one place where integer inputs produce a non-integer is \<open>n % 0\<close>, which is
    \<open>NaN\<close> in JavaScript. The model makes it explicit: \<open>js_rem\<close> returns \<open>None\<close>
    there and \<open>step\<close> reports \<open>NotANumber\<close> instead of continuing with a state that
    holds \<open>NaN\<close> coordinates.
  \<^item> \<open>state.snake[0]\<close> of an empty array is \<open>undefined\<close>, and reading \<open>head.x\<close>
    then throws a \<open>TypeError\<close>: the model returns \<open>Inl HeadUndefined\<close>.
  \<^item> \<open>Math.random()\<close> is the ambient generator of the runtime. Its result, a number in
    \<open>[0, 1)\<close>, is an explicit argument of the model (type \<open>draw\<close>).
  \<^item> \<open>changeDirection\<close> mutates its argument in place and returns nothing; the model
    returns the updated state.
  \<^item> The optional fields \<open>initialLength\<close> and \<open>wrap\<close> of the configuration are
    options; \<open>None\<close> is \<open>undefined\<close>.
  \<^item> Arrays are lists. \<open>Array.from({ length }, f)\<close> creates its array before it fills
    it and throws a \<open>RangeError\<close> for a length above \<open>2^32 - 1\<close>; \<open>createInitialState\<close>
    takes that length from a number of the configuration, and the model returns
    \<open>Inl InvalidArrayLength\<close>. The arrays held in a state are bounded by the memory of
    the machine only; the exhaustion of memory is outside the model.
\<close>

datatype Direction = up | down | left | right

record Point =
  x :: int
  y :: int

record GameConfig =
  cols :: int
  rows :: int
  initialLength :: "int option"
  wrap :: "bool option"

record GameState =
  snake :: "Point list"
  direction :: Direction
  food :: Point
  score :: int
  isGameOver :: bool
  tick :: int

text \<open>The value of \<open>Math.random()\<close>: a number \<open>r\<close> with \<open>0 \<le> r < 1\<close>.\<close>

typedef draw = "{r :: real. 0 \<le> r \<and> r < 1}"
  by (rule exI [of _ 0]) simp

setup_lifting type_definition_draw

datatype step_error = HeadUndefined | NotANumber

datatype create_error = InvalidArrayLength

section \<open>The operations\<close>

text \<open>The table \<open>opposite\<close> (lines 3 to 8).\<close>

fun opposite :: "Direction \<Rightarrow> Direction" where
  "opposite up = down"
| "opposite down = up"
| "opposite left = right"
| "opposite right = left"

text \<open>\<open>changeDirection\<close> (lines 28 to 31).\<close>

definition changeDirection :: "GameState \<Rightarrow> Direction \<Rightarrow> GameState" where
  "changeDirection state dir =
     (if opposite (direction state) = dir then state
      else state\<lparr>direction := dir\<rparr>)"

text \<open>
  The truthiness tests \<open>if (config.wrap)\<close> and \<open>!config.wrap\<close>: \<open>undefined\<close> and
  \<open>false\<close> are falsy.
\<close>

definition wrap_on :: "GameConfig \<Rightarrow> bool" where
  "wrap_on config = (case wrap config of None \<Rightarrow> False | Some b \<Rightarrow> b)"

text \<open>
  JavaScript's \<open>%\<close> on integers: the remainder of the truncating division, with the
  sign of the dividend; \<open>NaN\<close> (here \<open>None\<close>) for a zero divisor.
\<close>

definition js_rem :: "int \<Rightarrow> int \<Rightarrow> int option" where
  "js_rem a b = (if b = 0 then None else Some (sgn a * (\<bar>a\<bar> mod \<bar>b\<bar>)))"

text \<open>
  The addition of two integer-valued doubles: the exact sum, rounded to the nearest
  double, a tie to the one with the even significand. A double has a significand of 53
  bits, so an integer of \<open>53 + e\<close> bits is rounded to a multiple of \<open>2^e\<close>. (The
  arguments are doubles themselves; adding 1 or 10 to a double never overflows.)
\<close>

function bit_length :: "int \<Rightarrow> nat" where
  "bit_length m = (if m \<le> 0 then 0 else bit_length (m div 2) + 1)"
  by pat_completeness auto
termination
  by (relation "measure nat") auto

definition round_double :: "int \<Rightarrow> int" where
  "round_double n =
     (let m = \<bar>n\<bar>;
          e = (if bit_length m \<le> 53 then 0 else bit_length m - 53);
          q = m div 2 ^ e;
          r = m mod 2 ^ e;
          q' = (if 2 * r > 2 ^ e \<or> (2 * r = 2 ^ e \<and> odd q) then q + 1 else q)
      in sgn n * (q' * 2 ^ e))"

definition js_add :: "int \<Rightarrow> int \<Rightarrow> int" where
  "js_add a b = round_double (a + b)"

text \<open>The \<open>switch\<close> on the direction in \<open>step\<close> (lines 36 to 44).\<close>

fun move :: "Direction \<Rightarrow> Point \<Rightarrow> Point" where
  "move up head = \<lparr>x = x head, y = y head - 1\<rparr>"
| "move down head = \<lparr>x = x head, y = y head + 1\<rparr>"
| "move left head = \<lparr>x = x head - 1, y = y head\<rparr>"
| "move right head = \<lparr>x = x head + 1, y = y head\<rparr>"

text \<open>The wrap adjustment of \<open>step\<close> (lines 46 to 49).\<close>

definition wrap_point :: "GameConfig \<Rightarrow> Point \<Rightarrow> step_error + Point" where
  "wrap_point config n =
     (if wrap_on config
      then (case (js_rem (x n + cols config) (cols config),
                  js_rem (y n + rows config) (rows config)) of
              (Some nx, Some ny) \<Rightarrow> Inr \<lparr>x = nx, y = ny\<rparr>
            | _ \<Rightarrow> Inl NotANumber)
      else Inr n)"

text \<open>
  The candidate head \<open>(nx, ny)\<close> of \<open>step\<close> as it stands after line 49: the head moved
  by one cell and, with \<open>wrap\<close>, wrapped.
\<close>

definition candidate_head :: "GameConfig \<Rightarrow> GameState \<Rightarrow> step_error + Point" where
  "candidate_head config state =
     (case snake state of
        [] \<Rightarrow> Inl HeadUndefined
      | head # _ \<Rightarrow> wrap_point config (move (direction state) head))"

text \<open>The wall test of line 52.\<close>

definition wall_collision :: "GameConfig \<Rightarrow> Point \<Rightarrow> bool" where
  "wall_collision config n =
     (\<not> wrap_on config \<and>
      (x n < 0 \<or> y n < 0 \<or> x n \<ge> cols config \<or> y n \<ge> rows config))"

text \<open>Lines 58 to 60: \<open>willEat\<close>, \<open>bodyToCheck\<close> and the \<open>some\<close> test.\<close>

definition willEat :: "GameState \<Rightarrow> Point \<Rightarrow> bool" where
  "willEat state n = (x n = x (food state) \<and> y n = y (food state))"

definition bodyToCheck :: "GameState \<Rightarrow> Point \<Rightarrow> Point list" where
  "bodyToCheck state n =
     (if willEat state n then snake state else butlast (snake state))"

definition self_collision :: "GameState \<Rightarrow> Point \<Rightarrow> bool" where
  "self_collision state newHead =
     list_ex (\<lambda>p. x p = x newHead \<and> y p = y newHead) (bodyToCheck state newHead)"

text \<open>
  The key \<open>`${p.x},${p.y}`\<close> of a cell in the set \<open>occupied\<close>: the decimal rendering
  of the two coordinates with a comma between them, a minus sign before a negative
  number. (JavaScript renders integers this way below \<open>10^21\<close>.)
\<close>

definition digit_char :: "nat \<Rightarrow> char" where
  "digit_char d = char_of (48 + d)"

function show_nat :: "nat \<Rightarrow> string" where
  "show_nat n =
     (if n < 10 then [digit_char n] else show_nat (n div 10) @ [digit_char (n mod 10)])"
  by pat_completeness auto
termination
  by (relation "measure (\<lambda>n. n)") auto

definition show_int :: "int \<Rightarrow> string" where
  "show_int i = (if i < 0 then CHR ''-'' # show_nat (nat (- i)) else show_nat (nat i))"

definition cell_key :: "int \<Rightarrow> int \<Rightarrow> string" where
  "cell_key i j = show_int i @ '','' @ show_int j"

text \<open>The inner loop of \<open>spawnFood\<close> (lines 87 to 90), for the row \<open>j\<close> from column \<open>i\<close>.\<close>

function scan_columns ::
  "GameConfig \<Rightarrow> string set \<Rightarrow> int \<Rightarrow> int \<Rightarrow> Point list \<Rightarrow> Point list" where
  "scan_columns config occupied j i freeCells =
     (if i < cols config
      then scan_columns config occupied j (i + 1)
             (if cell_key i j \<notin> occupied then freeCells @ [\<lparr>x = i, y = j\<rparr>]
              else freeCells)
      else freeCells)"
  by pat_completeness auto
termination
  by (relation "measure (\<lambda>(config, occupied, j, i, freeCells). nat (cols config - i))") auto

text \<open>The outer loop of \<open>spawnFood\<close> (lines 86 to 91), from row \<open>j\<close>.\<close>

function scan_rows ::
  "GameConfig \<Rightarrow> string set \<Rightarrow> int \<Rightarrow> Point list \<Rightarrow> Point list" where
  "scan_rows config occupied j freeCells =
     (if j < rows config
      then scan_rows config occupied (j + 1) (scan_columns config occupied j 0 freeCells)
      else freeCells)"
  by pat_completeness auto
termination
  by (relation "measure (\<lambda>(config, occupied, j, freeCells). nat (rows config - j))") auto

declare bit_length.simps [simp del] show_nat.simps [simp del]
declare scan_columns.simps [simp del] scan_rows.simps [simp del]

text \<open>The array \<open>freeCells\<close> of \<open>spawnFood\<close> as it stands at line 92.\<close>

definition freeCells :: "GameConfig \<Rightarrow> Point list \<Rightarrow> Point list" where
  "freeCells config body =
     scan_rows config (set (map (\<lambda>p. cell_key (x p) (y p)) body)) 0 []"

text \<open>\<open>Math.floor(Math.random() * n)\<close> (line 96).\<close>

definition random_index :: "draw \<Rightarrow> nat \<Rightarrow> nat" where
  "random_index r n = nat \<lfloor>Rep_draw r * of_nat n\<rfloor>"

text \<open>\<open>spawnFood\<close> (lines 83 to 98).\<close>

definition spawnFood :: "GameConfig \<Rightarrow> Point list \<Rightarrow> draw \<Rightarrow> Point" where
  "spawnFood config body r =
     (let free = freeCells config body
      in if length free = 0 then \<lparr>x = - 1, y = - 1\<rparr>
         else free ! random_index r (length free))"

text \<open>\<open>createInitialState\<close> (lines 10 to 26).\<close>

definition createInitialState :: "GameConfig \<Rightarrow> draw \<Rightarrow> create_error + GameState" where
  "createInitialState config r =
     (let len = max 3 (case initialLength config of None \<Rightarrow> 4 | Some n \<Rightarrow> n);
          startX = cols config div 2;
          startY = rows config div 2
      in if len > 4294967295 then Inl InvalidArrayLength
         else
           let body = map (\<lambda>i. \<lparr>x = startX - int i, y = startY\<rparr>) [0..<nat len];
               state = \<lparr>snake = body, direction = right, food = \<lparr>x = 0, y = 0\<rparr>,
                        score = 0, isGameOver = False, tick = 0\<rparr>
           in Inr (state\<lparr>food := spawnFood config (snake state) r\<rparr>))"

text \<open>\<open>step\<close> (lines 33 to 81).\<close>

definition step :: "GameConfig \<Rightarrow> GameState \<Rightarrow> draw \<Rightarrow> step_error + GameState" where
  "step config state r =
     (if isGameOver state then Inr state
      else case candidate_head config state of
        Inl e \<Rightarrow> Inl e
      | Inr newHead \<Rightarrow>
          if wall_collision config newHead then Inr (state\<lparr>isGameOver := True\<rparr>)
          else if self_collision state newHead then Inr (state\<lparr>isGameOver := True\<rparr>)
          else
            let eat = willEat state newHead;
                newSnake = (if \<not> eat then butlast (newHead # snake state)
                            else newHead # snake state);
                newScore = (if eat then js_add (score state) 10 else score state);
                newFood = (if eat then spawnFood config newSnake r else food state)
            in Inr (state\<lparr>snake := newSnake, food := newFood, score := newScore,
                       tick := js_add (tick state) 1\<rparr>))"

section \<open>Notions of the specification\<close>

text \<open>The sentinel food \<open>(-1, -1)\<close> that \<open>spawnFood\<close> returns on a full board.\<close>

definition sentinel :: Point where
  "sentinel = \<lparr>x = - 1, y = - 1\<rparr>"

text \<open>A point lies on the board: inside \<open>[0, columns) \<times> [0, rows)\<close>.\<close>

definition in_bounds :: "GameConfig \<Rightarrow> Point \<Rightarrow> bool" where
  "in_bounds config p = (0 \<le> x p \<and> x p < cols config \<and> 0 \<le> y p \<and> y p < rows config)"

text \<open>
  Every cell of the \<open>columns \<times> rows\<close> grid in row-major order, as the specification of
  food placement words it: rows from top to bottom, each row from left to right.
\<close>

definition grid_cells :: "GameConfig \<Rightarrow> Point list" where
  "grid_cells config =
     concat (map (\<lambda>j. map (\<lambda>i. \<lparr>x = i, y = j\<rparr>) [0..cols config - 1]) [0..rows config - 1])"

text \<open>The board is full: every cell of the grid is occupied by the given body.\<close>

definition board_full :: "GameConfig \<Rightarrow> Point list \<Rightarrow> bool" where
  "board_full config body = list_all (\<lambda>p. p \<in> set body) (grid_cells config)"

text \<open>
  The run of \<open>step\<close> reaches the eating branch (lines 69 to 72): the state is active,
  there is a candidate head, and it passes the wall test and the self-collision test
  and lies on the food.
\<close>

definition eats :: "GameConfig \<Rightarrow> GameState \<Rightarrow> bool" where
  "eats config state =
     (\<not> isGameOver state \<and>
      (case candidate_head config state of
         Inl e \<Rightarrow> False
       | Inr newHead \<Rightarrow> \<not> wall_collision config newHead \<and> \<not> self_collision state newHead \<and>
                       willEat state newHead))"

text \<open>The result of \<open>step\<close> with the field \<open>food\<close> left out.\<close>

definition without_food ::
  "step_error + GameState \<Rightarrow> step_error + Point list \<times> Direction \<times> int \<times> bool \<times> int" where
  "without_food res =
     map_sum id (\<lambda>t. (snake t, direction t, score t, isGameOver t, tick t)) res"

section \<open>Concrete inputs\<close>

text \<open>Two draws, \<open>0\<close> and \<open>1/2\<close>.\<close>

lift_definition draw_zero :: draw is 0
  by simp

lift_definition draw_half :: draw is "1 / 2"
  by simp

text \<open>
  A board of 6 by 2 cells without and with wrapping, the board of the concrete
  scenario of the specification (12 by 12, initial length 5), and the same board with
  an initial length of \<open>2^32\<close>.
\<close>

definition demo_config :: GameConfig where
  "demo_config = \<lparr>cols = 6, rows = 2, initialLength = Some 3, wrap = Some False\<rparr>"

definition wrap_config :: GameConfig where
  "wrap_config = \<lparr>cols = 6, rows = 2, initialLength = Some 3, wrap = Some True\<rparr>"

definition spec_config :: GameConfig where
  "spec_config = \<lparr>cols = 12, rows = 12, initialLength = Some 5, wrap = Some False\<rparr>"

definition long_config :: GameConfig where
  "long_config = \<lparr>cols = 12, rows = 12, initialLength = Some 4294967296, wrap = Some False\<rparr>"

text \<open>
  \<open>demo_state\<close>: the food lies right in front of the head. \<open>edge_state\<close>: the head is
  on the right edge and moves right. \<open>loop_state\<close>: a snake of four cells in a square,
  whose head moves into the cell of its tail.
\<close>

definition demo_state :: GameState where
  "demo_state = \<lparr>snake = [\<lparr>x = 2, y = 0\<rparr>, \<lparr>x = 1, y = 0\<rparr>, \<lparr>x = 0, y = 0\<rparr>],
                  direction = right, food = \<lparr>x = 3, y = 0\<rparr>, score = 0,
                  isGameOver = False, tick = 0\<rparr>"

definition edge_state :: GameState where
  "edge_state = \<lparr>snake = [\<lparr>x = 5, y = 0\<rparr>, \<lparr>x = 4, y = 0\<rparr>, \<lparr>x = 3, y = 0\<rparr>],
                  direction = right, food = \<lparr>x = 0, y = 1\<rparr>, score = 20,
                  isGameOver = False, tick = 7\<rparr>"

definition loop_state :: GameState where
  "loop_state = \<lparr>snake = [\<lparr>x = 0, y = 0\<rparr>, \<lparr>x = 1, y = 0\<rparr>, \<lparr>x = 1, y = 1\<rparr>, \<lparr>x = 0, y = 1\<rparr>],
                  direction = down, food = \<lparr>x = 3, y = 0\<rparr>, score = 10,
                  isGameOver = False, tick = 4\<rparr>"

text \<open>
  \<open>loop_state\<close> after \<open>2^53\<close> ticks, and \<open>demo_state\<close> with a score of \<open>2^54\<close>.
\<close>

definition tick_limit_state :: GameState where
  "tick_limit_state = loop_state\<lparr>tick := 9007199254740992\<rparr>"

definition score_limit_state :: GameState where
  "score_limit_state = demo_state\<lparr>score := 18014398509481984\<rparr>"

section \<open>Auxiliary facts\<close>

subsection \<open>The addition of doubles\<close>

text \<open>Up to \<open>2^53\<close> in magnitude every integer is a double, and the sum is exact.\<close>

lemma bit_length_le: "m < 2 ^ k \<Longrightarrow> bit_length m \<le> k"
proof (induction m arbitrary: k rule: bit_length.induct)
  case (1 m)
  show ?case
  proof (cases "m \<le> 0")
    case True
    then show ?thesis by (simp add: bit_length.simps)
  next
    case False
    with "1.prems" obtain j where k: "k = Suc j" by (cases k) auto
    with "1.prems" have "m div 2 < 2 ^ j" by auto
    from "1.IH" [OF False this] False k show ?thesis
      by (subst bit_length.simps) simp
  qed
qed

lemma round_double_small: "\<bar>n\<bar> < 2 ^ 53 \<Longrightarrow> round_double n = n"
proof -
  assume "\<bar>n\<bar> < 2 ^ 53"
  then have "bit_length \<bar>n\<bar> \<le> 53" by (rule bit_length_le)
  then show ?thesis
    by (simp add: round_double_def Let_def mult_sgn_abs)
qed

lemma bit_length_limit: "bit_length 9007199254740992 = 54"
  by code_simp

lemma round_double_limit:
  "round_double 9007199254740992 = 9007199254740992"
  "round_double (- 9007199254740992) = - 9007199254740992"
  by (simp_all add: round_double_def Let_def bit_length_limit)

lemma round_double_exact: "\<bar>n\<bar> \<le> 2 ^ 53 \<Longrightarrow> round_double n = n"
proof -
  assume "\<bar>n\<bar> \<le> 2 ^ 53"
  then consider "\<bar>n\<bar> < 2 ^ 53" | "n = 9007199254740992" | "n = - 9007199254740992"
    by fastforce
  then show ?thesis
    by cases (simp_all add: round_double_small round_double_limit)
qed

lemma js_add_exact: "\<bar>a + b\<bar> \<le> 2 ^ 53 \<Longrightarrow> js_add a b = a + b"
  by (simp add: js_add_def round_double_exact)

text \<open>Beyond \<open>2^53\<close>: the odd \<open>2^53 + 1\<close> is a tie, and so is \<open>2^54 + 10\<close>.\<close>

lemma js_add_tick_limit: "js_add 9007199254740992 1 = 9007199254740992"
  by code_simp

lemma js_add_score_limit: "js_add 18014398509481984 10 = 18014398509481992"
  by code_simp

lemma js_add_small: "js_add 0 1 = 1" "js_add 0 10 = 10" "js_add 4 1 = 5"
  by (simp_all add: js_add_exact)

subsection \<open>Points and the collision test\<close>

lemma same_cell_iff: "(x p = x q \<and> y p = y q) = (p = (q::Point))"
  by auto

lemma self_collision_iff: "self_collision s h = (h \<in> set (bodyToCheck s h))"
  by (auto simp: self_collision_def list_ex_iff same_cell_iff)

lemma willEat_iff: "willEat s h = (h = food s)"
  by (auto simp: willEat_def)

lemma candidate_head_nonempty: "candidate_head config s = Inr h \<Longrightarrow> snake s \<noteq> []"
  by (auto simp: candidate_head_def)

subsection \<open>Keys of cells\<close>

text \<open>
  The rendering of an integer determines it and holds no comma, so two keys are equal
  exactly when the two coordinate pairs are.
\<close>

lemma digit_char_inj: "a < 10 \<Longrightarrow> b < 10 \<Longrightarrow> digit_char a = digit_char b \<Longrightarrow> a = b"
proof -
  assume a: "a < 10" and b: "b < 10" and e: "digit_char a = digit_char b"
  from e have "of_char (digit_char a) = (of_char (digit_char b) :: nat)" by simp
  with a b show ?thesis by (simp add: digit_char_def)
qed

lemma digit_char_neq: "d < 10 \<Longrightarrow> digit_char d \<noteq> CHR '',''" "d < 10 \<Longrightarrow> digit_char d \<noteq> CHR ''-''"
proof -
  assume d: "d < 10"
  have "(of_char (digit_char d) :: nat) = 48 + d" using d by (simp add: digit_char_def)
  moreover have "(of_char CHR '','' :: nat) = 44" "(of_char CHR ''-'' :: nat) = 45" by simp_all
  ultimately show "digit_char d \<noteq> CHR '',''" "digit_char d \<noteq> CHR ''-''" by auto
qed

lemma show_nat_nonempty: "show_nat n \<noteq> []"
  by (subst show_nat.simps) simp

lemma show_nat_chars: "c \<in> set (show_nat n) \<Longrightarrow> c \<noteq> CHR '','' \<and> c \<noteq> CHR ''-''"
proof (induction n rule: show_nat.induct)
  case (1 n)
  show ?case
  proof (cases "n < 10")
    case True
    with "1.prems" show ?thesis
      by (subst (asm) show_nat.simps) (auto simp: digit_char_neq)
  next
    case False
    with "1.prems" "1.IH" show ?thesis
      by (subst (asm) show_nat.simps) (auto simp: digit_char_neq)
  qed
qed

lemma show_nat_inj: "show_nat n = show_nat m \<Longrightarrow> n = m"
proof (induction n arbitrary: m rule: show_nat.induct)
  case (1 n)
  show ?case
  proof (cases "n < 10")
    case n: True
    show ?thesis
    proof (cases "m < 10")
      case True
      with n "1.prems" show ?thesis
        by (simp add: show_nat.simps [of n] show_nat.simps [of m] digit_char_inj)
    next
      case False
      with n "1.prems" show_nat_nonempty [of "m div 10"] show ?thesis
        by (simp add: show_nat.simps [of n] show_nat.simps [of m])
    qed
  next
    case n: False
    show ?thesis
    proof (cases "m < 10")
      case True
      with n "1.prems" show_nat_nonempty [of "n div 10"] show ?thesis
        by (simp add: show_nat.simps [of n] show_nat.simps [of m])
    next
      case False
      with n "1.prems" have "show_nat (n div 10) = show_nat (m div 10)"
        and "digit_char (n mod 10) = digit_char (m mod 10)"
        by (simp_all add: show_nat.simps [of n] show_nat.simps [of m])
      then have "n div 10 = m div 10" and "n mod 10 = m mod 10"
        using "1.IH" [OF n] by (auto intro: digit_char_inj)
      then show ?thesis by (metis div_mult_mod_eq)
    qed
  qed
qed

lemma show_int_no_comma: "CHR '','' \<notin> set (show_int i)"
  using show_nat_chars by (auto simp: show_int_def)

lemma hd_show_int: "(hd (show_int i) = CHR ''-'') = (i < 0)"
  using show_nat_chars [of "hd (show_nat (nat i))" "nat i"] show_nat_nonempty [of "nat i"]
  by (simp add: show_int_def)

lemma show_int_inj: "show_int i = show_int j \<Longrightarrow> i = j"
proof -
  assume e: "show_int i = show_int j"
  then have s: "(i < 0) = (j < 0)"
    using hd_show_int [of i] hd_show_int [of j] by simp
  show ?thesis
  proof (cases "i < 0")
    case True
    with s e have "nat (- i) = nat (- j)" by (auto simp: show_int_def dest: show_nat_inj)
    with True s show ?thesis by simp
  next
    case False
    with s e have "nat i = nat j" by (auto simp: show_int_def dest: show_nat_inj)
    with False s show ?thesis by simp
  qed
qed

lemma split_at_separator:
  "c \<notin> set xs \<Longrightarrow> c \<notin> set us \<Longrightarrow> xs @ c # ys = us @ c # vs \<Longrightarrow> xs = us \<and> ys = vs"
proof (induction xs arbitrary: us)
  case Nil
  then show ?case by (cases us) auto
next
  case (Cons a xs)
  then show ?case by (cases us) auto
qed

lemma cell_key_inj: "(cell_key a b = cell_key c d) = (a = c \<and> b = d)"
proof
  assume "cell_key a b = cell_key c d"
  then have "show_int a @ CHR '','' # show_int b = show_int c @ CHR '','' # show_int d"
    by (simp add: cell_key_def)
  from split_at_separator [OF show_int_no_comma show_int_no_comma this]
  show "a = c \<and> b = d" by (auto dest: show_int_inj)
qed simp

subsection \<open>The scan of the grid\<close>

text \<open>
  The two loops of \<open>spawnFood\<close> append, to what they were given, the free cells of the
  remaining columns and rows; from \<open>(0, 0)\<close> they yield the row-major enumeration of the
  grid without the occupied cells.
\<close>

lemma scan_columns_eq:
  "scan_columns c occ j i acc =
     acc @ map (\<lambda>a. \<lparr>x = a, y = j\<rparr>) (filter (\<lambda>a. cell_key a j \<notin> occ) [i..cols c - 1])"
proof (induction c occ j i acc rule: scan_columns.induct)
  case (1 c occ j i acc)
  show ?case
  proof (cases "i < cols c")
    case True
    then have u: "[i..cols c - 1] = i # [i + 1..cols c - 1]"
      by (simp add: upto_rec1)
    show ?thesis
      using True "1.IH" [OF True] by (subst scan_columns.simps) (simp add: u)
  next
    case False
    then show ?thesis by (subst scan_columns.simps) simp
  qed
qed

lemma scan_rows_eq:
  "scan_rows c occ j acc =
     acc @ concat (map (\<lambda>b. map (\<lambda>a. \<lparr>x = a, y = b\<rparr>)
                               (filter (\<lambda>a. cell_key a b \<notin> occ) [0..cols c - 1]))
                   [j..rows c - 1])"
proof (induction c occ j acc rule: scan_rows.induct)
  case (1 c occ j acc)
  show ?case
  proof (cases "j < rows c")
    case True
    then have u: "[j..rows c - 1] = j # [j + 1..rows c - 1]"
      by (simp add: upto_rec1)
    show ?thesis
      using True "1.IH" [OF True] by (subst scan_rows.simps) (simp add: u scan_columns_eq)
  next
    case False
    then show ?thesis by (subst scan_rows.simps) simp
  qed
qed

lemma key_occupied:
  "(cell_key a b \<in> set (map (\<lambda>p. cell_key (x p) (y p)) body)) = (\<lparr>x = a, y = b\<rparr> \<in> set body)"
proof -
  have "(cell_key a b \<in> set (map (\<lambda>p. cell_key (x p) (y p)) body)) =
        (\<exists>p \<in> set body. x p = a \<and> y p = b)"
    by (auto simp: cell_key_inj)
  also have "\<dots> = (\<lparr>x = a, y = b\<rparr> \<in> set body)"
    by (metis (full_types) Point.select_convs(1) Point.select_convs(2) Point.surjective old.unit.exhaust)
  finally show ?thesis .
qed

lemma freeCells_eq: "freeCells c body = filter (\<lambda>p. p \<notin> set body) (grid_cells c)"
  unfolding freeCells_def grid_cells_def scan_rows_eq key_occupied
  by (simp add: filter_concat filter_map comp_def)

lemma set_grid_cells: "set (grid_cells c) = {p. 0 \<le> x p \<and> x p < cols c \<and> 0 \<le> y p \<and> y p < rows c}"
proof -
  have "p \<in> (\<lambda>i. \<lparr>x = i, y = y p\<rparr>) ` {0..cols c - 1}"
    if "0 \<le> x p" "x p < cols c" for p :: Point
    using that by (intro image_eqI [of _ _ "x p"]) auto
  then show ?thesis
    by (fastforce simp: grid_cells_def)
qed

lemma set_freeCells: "set (freeCells c body) = {p. in_bounds c p \<and> p \<notin> set body}"
  by (auto simp: freeCells_eq set_grid_cells in_bounds_def)

lemma board_full_iff:
  "board_full c body = (\<forall>i j. 0 \<le> i \<and> i < cols c \<and> 0 \<le> j \<and> j < rows c \<longrightarrow> \<lparr>x = i, y = j\<rparr> \<in> set body)"
  unfolding board_full_def list_all_iff set_grid_cells
  apply auto
  by (metis (full_types) Point.surjective old.unit.exhaust)

lemma freeCells_empty_iff: "(freeCells c body = []) = board_full c body"
  by (auto simp: freeCells_eq board_full_def filter_empty_conv list_all_iff)

subsection \<open>The random index\<close>

text \<open>A draw below 1 gives an index below the number of free cells.\<close>

lemma random_index_less: "0 < n \<Longrightarrow> random_index r n < n"
proof -
  assume n: "0 < n"
  have r: "0 \<le> Rep_draw r" "Rep_draw r < 1" using Rep_draw [of r] by auto
  have "Rep_draw r * of_nat n < of_nat n" using r n by simp
  then have "\<lfloor>Rep_draw r * of_nat n\<rfloor> < int n" by (simp add: floor_less_iff)
  then show ?thesis using n by (simp add: random_index_def)
qed

lemmas Rep_draw_zero = draw_zero.rep_eq
lemmas Rep_draw_half = draw_half.rep_eq

lemma spawnFood_full: "board_full c body \<Longrightarrow> spawnFood c body r = sentinel"
  using freeCells_empty_iff [of c body] by (simp add: spawnFood_def sentinel_def Let_def)

lemma spawnFood_free:
  assumes "\<not> board_full c body"
  shows "spawnFood c body r = freeCells c body ! random_index r (length (freeCells c body))"
    and "random_index r (length (freeCells c body)) < length (freeCells c body)"
    and "spawnFood c body r \<in> set (freeCells c body)"
proof -
  from assms have ne: "freeCells c body \<noteq> []" by (simp add: freeCells_empty_iff)
  then show 1: "spawnFood c body r = freeCells c body ! random_index r (length (freeCells c body))"
    by (simp add: spawnFood_def Let_def)
  from ne show 2: "random_index r (length (freeCells c body)) < length (freeCells c body)"
    by (intro random_index_less) simp
  from 1 2 show "spawnFood c body r \<in> set (freeCells c body)" by simp
qed

subsection \<open>The wrap adjustment\<close>

lemma js_rem_nonneg: "0 \<le> a \<Longrightarrow> 0 < b \<Longrightarrow> js_rem a b = Some (a mod b)"
  by (simp add: js_rem_def sgn_if)

lemma wrap_point_wrapped:
  assumes "wrap_on config" and "1 \<le> cols config" and "1 \<le> rows config"
    and "- 1 \<le> x n" and "- 1 \<le> y n"
  shows "wrap_point config n =
           Inr \<lparr>x = (x n + cols config) mod cols config, y = (y n + rows config) mod rows config\<rparr>"
proof -
  have "js_rem (x n + cols config) (cols config) = Some ((x n + cols config) mod cols config)"
    using assms by (intro js_rem_nonneg) auto
  moreover
  have "js_rem (y n + rows config) (rows config) = Some ((y n + rows config) mod rows config)"
    using assms by (intro js_rem_nonneg) auto
  ultimately show ?thesis using assms(1) by (simp add: wrap_point_def)
qed

lemma move_lower: "0 \<le> x p \<Longrightarrow> - 1 \<le> x (move d p)" "0 \<le> y p \<Longrightarrow> - 1 \<le> y (move d p)"
  by (cases d; simp)+

lemma candidate_wrapped:
  assumes "wrap_on config" and "1 \<le> cols config" and "1 \<le> rows config"
    and "snake s = head # rest" and "in_bounds config head"
  shows "candidate_head config s =
           Inr \<lparr>x = (x (move (direction s) head) + cols config) mod cols config,
                y = (y (move (direction s) head) + rows config) mod rows config\<rparr>"
proof -
  from assms(5) have "- 1 \<le> x (move (direction s) head)" "- 1 \<le> y (move (direction s) head)"
    by (simp_all add: in_bounds_def move_lower)
  from wrap_point_wrapped [OF assms(1-3) this] assms(4)
  show ?thesis by (simp add: candidate_head_def)
qed

subsection \<open>The branches of \<open>step\<close> in an active state\<close>

lemma step_active:
  assumes "\<not> isGameOver s" and "candidate_head config s = Inr h"
    and "\<not> wall_collision config h"
  shows "h \<in> set (bodyToCheck s h) \<Longrightarrow> step config s r = Inr (s\<lparr>isGameOver := True\<rparr>)"
    and "h \<notin> set (bodyToCheck s h) \<Longrightarrow> h = food s \<Longrightarrow>
           step config s r = Inr (s\<lparr>snake := h # snake s, food := spawnFood config (h # snake s) r,
                                   score := js_add (score s) 10,
                                   tick := js_add (tick s) 1\<rparr>)"
    and "h \<notin> set (bodyToCheck s h) \<Longrightarrow> h \<noteq> food s \<Longrightarrow>
           step config s r = Inr (s\<lparr>snake := butlast (h # snake s),
                                   tick := js_add (tick s) 1\<rparr>)"
  using assms by (simp_all add: step_def self_collision_iff willEat_iff Let_def)

lemma wall_collision_iff:
  "wall_collision config h = (\<not> wrap_on config \<and> \<not> in_bounds config h)"
  by (auto simp: wall_collision_def in_bounds_def)

subsection \<open>Evaluation on concrete inputs\<close>

lemmas eval_defs =
  step_def candidate_head_def wrap_point_def wrap_on_def js_rem_def wall_collision_def
  self_collision_def bodyToCheck_def willEat_def js_add_small

lemmas food_defs =
  spawnFood_def freeCells_eq grid_cells_def random_index_def Rep_draw_zero Rep_draw_half
  upto_rec1

lemma demo_eat_zero:
  "step demo_config demo_state draw_zero =
     Inr \<lparr>snake = [\<lparr>x = 3, y = 0\<rparr>, \<lparr>x = 2, y = 0\<rparr>, \<lparr>x = 1, y = 0\<rparr>, \<lparr>x = 0, y = 0\<rparr>],
          direction = right, food = \<lparr>x = 4, y = 0\<rparr>, score = 10,
          isGameOver = False, tick = 1\<rparr>"
  by (simp add: eval_defs food_defs demo_config_def demo_state_def)

lemma demo_eat_half:
  "step demo_config demo_state draw_half =
     Inr \<lparr>snake = [\<lparr>x = 3, y = 0\<rparr>, \<lparr>x = 2, y = 0\<rparr>, \<lparr>x = 1, y = 0\<rparr>, \<lparr>x = 0, y = 0\<rparr>],
          direction = right, food = \<lparr>x = 2, y = 1\<rparr>, score = 10,
          isGameOver = False, tick = 1\<rparr>"
  by (simp add: eval_defs food_defs demo_config_def demo_state_def)

section \<open>The terminal state\<close>

text \<open>
  Claim C1. In a state whose \<open>isGameOver\<close> is set, \<open>step\<close> returns the very state it was
  given, for every configuration and every draw: the flag stays set and \<open>snake\<close>,
  \<open>food\<close>, \<open>score\<close> and \<open>tick\<close> are those of the input. The terminal state is
  absorbing, and \<open>step\<close> does nothing on it.
\<close>

theorem step_terminal_absorbing:
  "isGameOver s \<Longrightarrow>
   (\<exists>s'. step config s r = Inr s' \<and> isGameOver s' \<and> snake s' = snake s \<and>
         food s' = food s \<and> score s' = score s \<and> tick s' = tick s \<and> s' = s)"
  by (simp add: step_def)

theorem step_terminal_absorbing_witness:
  "isGameOver (demo_state\<lparr>isGameOver := True\<rparr>) \<and>
   step demo_config (demo_state\<lparr>isGameOver := True\<rparr>) draw_half
     = Inr (demo_state\<lparr>isGameOver := True\<rparr>)"
  using step_terminal_absorbing [of "demo_state\<lparr>isGameOver := True\<rparr>" demo_config draw_half]
  by simp

section \<open>Determinism\<close>

text \<open>
  Claim C2, as stated: two applications of \<open>step\<close> to the same configuration and state
  produce equal states. \<open>spawnFood\<close> calls \<open>Math.random()\<close> itself (line 96) and takes no
  random source, so the result of \<open>step\<close> also depends on the number drawn. On the 6 by
  2 board, with the food in front of the head, the draw \<open>0\<close> places the new food at
  \<open>(4, 0)\<close> and the draw \<open>1/2\<close> places it at \<open>(2, 1)\<close>.
\<close>

theorem step_draw_counterexample:
  "step demo_config demo_state draw_zero \<noteq> step demo_config demo_state draw_half"
  by (simp add: demo_eat_zero demo_eat_half)

text \<open>
  Claim C2, amended. \<open>step\<close> is a function of the configuration, the state and the
  number drawn by \<open>Math.random()\<close>. Two applications to the same configuration and state
  agree, whatever is drawn, in the error if there is one and in \<open>snake\<close>, \<open>direction\<close>,
  \<open>score\<close>, \<open>isGameOver\<close> and \<open>tick\<close>; they agree in \<open>food\<close> as well whenever the step
  does not reach the eating branch.
\<close>

theorem step_draw_dependence:
  "without_food (step config s r1) = without_food (step config s r2) \<and>
   (\<not> eats config s \<longrightarrow> step config s r1 = step config s r2)"
  by (auto simp: without_food_def eats_def step_def Let_def split: sum.splits)

theorem step_draw_dependence_witness:
  "\<not> eats demo_config loop_state \<and>
   step demo_config loop_state draw_zero = step demo_config loop_state draw_half \<and>
   without_food (step demo_config demo_state draw_zero)
     = without_food (step demo_config demo_state draw_half)"
proof -
  have "\<not> eats demo_config loop_state"
    by (simp add: eats_def eval_defs demo_config_def loop_state_def)
  then show ?thesis
    using step_draw_dependence [of demo_config loop_state draw_zero draw_half]
      step_draw_dependence [of demo_config demo_state draw_zero draw_half]
    by simp
qed

section \<open>Moving and eating\<close>

text \<open>
  Claim C3, as stated: in every active state whose candidate head neither leaves a
  non-wrapping board nor lies on a checked cell, \<open>tick\<close> increases by exactly 1 and
  eating increases the score by exactly 10. The source adds doubles. After \<open>2^53\<close> ticks
  the sum \<open>tick + 1\<close> is no double and is rounded back to \<open>2^53\<close>: the step moves the
  snake and returns the tick it was given. With a score of \<open>2^54\<close> an eating step adds 8.
\<close>

theorem step_tick_counterexample:
  "\<not> isGameOver tick_limit_state \<and>
   candidate_head demo_config tick_limit_state = Inr \<lparr>x = 0, y = 1\<rparr> \<and>
   in_bounds demo_config \<lparr>x = 0, y = 1\<rparr> \<and>
   \<lparr>x = 0, y = 1\<rparr> \<noteq> food tick_limit_state \<and>
   \<lparr>x = 0, y = 1\<rparr> \<notin> set (butlast (snake tick_limit_state)) \<and>
   tick tick_limit_state = 9007199254740992 \<and>
   step demo_config tick_limit_state draw_zero =
     Inr \<lparr>snake = [\<lparr>x = 0, y = 1\<rparr>, \<lparr>x = 0, y = 0\<rparr>, \<lparr>x = 1, y = 0\<rparr>, \<lparr>x = 1, y = 1\<rparr>],
          direction = down, food = \<lparr>x = 3, y = 0\<rparr>, score = 10,
          isGameOver = False, tick = 9007199254740992\<rparr> \<and>
   \<not> isGameOver score_limit_state \<and>
   candidate_head demo_config score_limit_state = Inr \<lparr>x = 3, y = 0\<rparr> \<and>
   in_bounds demo_config \<lparr>x = 3, y = 0\<rparr> \<and>
   \<lparr>x = 3, y = 0\<rparr> = food score_limit_state \<and>
   \<lparr>x = 3, y = 0\<rparr> \<notin> set (snake score_limit_state) \<and>
   score score_limit_state = 18014398509481984 \<and>
   step demo_config score_limit_state draw_zero =
     Inr \<lparr>snake = [\<lparr>x = 3, y = 0\<rparr>, \<lparr>x = 2, y = 0\<rparr>, \<lparr>x = 1, y = 0\<rparr>, \<lparr>x = 0, y = 0\<rparr>],
          direction = right, food = \<lparr>x = 4, y = 0\<rparr>, score = 18014398509481992,
          isGameOver = False, tick = 1\<rparr>"
  unfolding tick_limit_state_def score_limit_state_def
  by (simp add: step_def candidate_head_def wrap_point_def wrap_on_def wall_collision_def
      self_collision_def bodyToCheck_def willEat_def in_bounds_def food_defs
      js_add_tick_limit js_add_score_limit js_add_small
      demo_config_def loop_state_def demo_state_def)

text \<open>
  Claim C3, amended. In an active state whose candidate head \<open>h\<close> neither leaves a
  non-wrapping board nor lies on a checked cell, \<open>step\<close> returns an active state. Its
  \<open>tick\<close> is the double nearest to \<open>tick + 1\<close>, which is exactly \<open>tick + 1\<close> as long as
  that sum is at most \<open>2^53\<close> in magnitude. If \<open>h\<close> is the food, the score becomes the
  double nearest to \<open>score + 10\<close>, exactly \<open>score + 10\<close> as long as that sum is at most
  \<open>2^53\<close> in magnitude; the snake grows by exactly one cell (\<open>h\<close> in front of the old
  body), and the new food lies on no cell of the new snake unless the board is full. If
  \<open>h\<close> is not the food, the length of the snake, the food and the score stay as they
  were.
\<close>

theorem step_move_or_eat:
  assumes "\<not> isGameOver s" and "candidate_head config s = Inr h"
    and "wrap_on config \<or> in_bounds config h"
    and "h \<notin> set (if h = food s then snake s else butlast (snake s))"
  shows "\<exists>s'. step config s r = Inr s' \<and> \<not> isGameOver s' \<and>
           tick s' = round_double (tick s + 1) \<and>
           (\<bar>tick s + 1\<bar> \<le> 2 ^ 53 \<longrightarrow> tick s' = tick s + 1) \<and>
           (h = food s \<longrightarrow>
              score s' = round_double (score s + 10) \<and>
              (\<bar>score s + 10\<bar> \<le> 2 ^ 53 \<longrightarrow> score s' = score s + 10) \<and>
              length (snake s') = length (snake s) + 1 \<and>
              snake s' = h # snake s \<and>
              (food s' \<notin> set (snake s') \<or> board_full config (snake s'))) \<and>
           (h \<noteq> food s \<longrightarrow>
              length (snake s') = length (snake s) \<and> food s' = food s \<and>
              score s' = score s \<and> snake s' = h # butlast (snake s))"
proof -
  from assms(3) have nw: "\<not> wall_collision config h"
    by (auto simp: wall_collision_iff)
  from assms(4) have nb: "h \<notin> set (bodyToCheck s h)"
    by (simp add: bodyToCheck_def willEat_iff)
  have t: "\<bar>tick s + 1\<bar> \<le> 2 ^ 53 \<longrightarrow> js_add (tick s) 1 = tick s + 1"
    and c: "\<bar>score s + 10\<bar> \<le> 2 ^ 53 \<longrightarrow> js_add (score s) 10 = score s + 10"
    by (simp_all add: js_add_exact)
  show ?thesis
  proof (cases "h = food s")
    case True
    have "spawnFood config (h # snake s) r \<notin> set (h # snake s)
          \<or> board_full config (h # snake s)"
      using spawnFood_free(3) [of config "h # snake s" r] by (auto simp: set_freeCells)
    with step_active(2) [OF assms(1,2) nw nb True, of r] True assms(1) t c show ?thesis
      by (auto simp: js_add_def)
  next
    case False
    from candidate_head_nonempty [OF assms(2)] have "snake s \<noteq> []" .
    with step_active(3) [OF assms(1,2) nw nb False, of r] False assms(1) t show ?thesis
      by (simp add: js_add_def)
  qed
qed

theorem step_move_or_eat_witness:
  "\<not> isGameOver demo_state \<and>
   candidate_head demo_config demo_state = Inr \<lparr>x = 3, y = 0\<rparr> \<and>
   in_bounds demo_config \<lparr>x = 3, y = 0\<rparr> \<and>
   \<lparr>x = 3, y = 0\<rparr> = food demo_state \<and>
   \<lparr>x = 3, y = 0\<rparr> \<notin> set (snake demo_state) \<and>
   \<bar>tick demo_state + 1\<bar> \<le> 2 ^ 53 \<and> \<bar>score demo_state + 10\<bar> \<le> 2 ^ 53 \<and>
   (\<exists>s'. step demo_config demo_state draw_half = Inr s' \<and> tick s' = 1 \<and> score s' = 10 \<and>
         length (snake s') = 4 \<and> \<not> board_full demo_config (snake s') \<and>
         food s' \<notin> set (snake s')) \<and>
   \<not> isGameOver loop_state \<and>
   candidate_head demo_config loop_state = Inr \<lparr>x = 0, y = 1\<rparr> \<and>
   in_bounds demo_config \<lparr>x = 0, y = 1\<rparr> \<and>
   \<lparr>x = 0, y = 1\<rparr> \<noteq> food loop_state \<and>
   \<lparr>x = 0, y = 1\<rparr> \<notin> set (butlast (snake loop_state)) \<and>
   \<bar>tick loop_state + 1\<bar> \<le> 2 ^ 53 \<and>
   (\<exists>s'. step demo_config loop_state draw_half = Inr s' \<and> tick s' = 5 \<and> score s' = 10 \<and>
         length (snake s') = 4 \<and> food s' = \<lparr>x = 3, y = 0\<rparr>) \<and>
   wrap_on wrap_config \<and> \<not> in_bounds wrap_config \<lparr>x = 6, y = 0\<rparr> \<and>
   candidate_head wrap_config edge_state = Inr \<lparr>x = 0, y = 0\<rparr> \<and>
   (\<exists>s'. step wrap_config edge_state draw_half = Inr s' \<and> tick s' = 8 \<and>
         snake s' = [\<lparr>x = 0, y = 0\<rparr>, \<lparr>x = 5, y = 0\<rparr>, \<lparr>x = 4, y = 0\<rparr>])"
proof -
  have a: "\<not> isGameOver demo_state"
    and b: "candidate_head demo_config demo_state = Inr \<lparr>x = 3, y = 0\<rparr>"
    and c: "in_bounds demo_config \<lparr>x = 3, y = 0\<rparr>"
    and e: "\<lparr>x = 3, y = 0\<rparr> = food demo_state"
    and d: "\<lparr>x = 3, y = 0\<rparr> \<notin> set (snake demo_state)"
    and t: "\<bar>tick demo_state + 1\<bar> \<le> 2 ^ 53" "\<bar>score demo_state + 10\<bar> \<le> 2 ^ 53"
    by (simp_all add: eval_defs in_bounds_def demo_config_def demo_state_def)
  from d e have d0: "\<lparr>x = 3, y = 0\<rparr> \<notin> set (if \<lparr>x = 3, y = 0\<rparr> = food demo_state
                        then snake demo_state else butlast (snake demo_state))"
    by simp
  have f: "\<not> board_full demo_config (\<lparr>x = 3, y = 0\<rparr> # snake demo_state)"
    by (simp add: board_full_def grid_cells_def demo_config_def demo_state_def upto_rec1)
  have a': "\<not> isGameOver loop_state"
    and b': "candidate_head demo_config loop_state = Inr \<lparr>x = 0, y = 1\<rparr>"
    and c': "in_bounds demo_config \<lparr>x = 0, y = 1\<rparr>"
    and e': "\<lparr>x = 0, y = 1\<rparr> \<noteq> food loop_state"
    and d': "\<lparr>x = 0, y = 1\<rparr> \<notin> set (butlast (snake loop_state))"
    and t': "\<bar>tick loop_state + 1\<bar> \<le> 2 ^ 53"
    by (simp_all add: eval_defs in_bounds_def demo_config_def loop_state_def)
  from d' e' have d0': "\<lparr>x = 0, y = 1\<rparr> \<notin> set (if \<lparr>x = 0, y = 1\<rparr> = food loop_state
                        then snake loop_state else butlast (snake loop_state))"
    by simp
  have a'': "\<not> isGameOver edge_state"
    and b'': "candidate_head wrap_config edge_state = Inr \<lparr>x = 0, y = 0\<rparr>"
    and c'': "wrap_on wrap_config" "\<not> in_bounds wrap_config \<lparr>x = 6, y = 0\<rparr>"
    and e'': "\<lparr>x = 0, y = 0\<rparr> \<noteq> food edge_state"
    and d'': "\<lparr>x = 0, y = 0\<rparr> \<notin> set (butlast (snake edge_state))"
    and t'': "\<bar>tick edge_state + 1\<bar> \<le> 2 ^ 53"
    by (simp_all add: eval_defs in_bounds_def wrap_config_def edge_state_def)
  from d'' e'' have d0'': "\<lparr>x = 0, y = 0\<rparr> \<notin> set (if \<lparr>x = 0, y = 0\<rparr> = food edge_state
                        then snake edge_state else butlast (snake edge_state))"
    by simp
  have g: "length (snake demo_state) = 3" "score demo_state = 0" "tick demo_state = 0"
    by (simp_all add: demo_state_def)
  have g': "length (snake loop_state) = 4" "score loop_state = 10" "tick loop_state = 4"
    "food loop_state = \<lparr>x = 3, y = 0\<rparr>"
    by (simp_all add: loop_state_def)
  have g'': "tick edge_state = 7"
    "butlast (snake edge_state) = [\<lparr>x = 5, y = 0\<rparr>, \<lparr>x = 4, y = 0\<rparr>]"
    by (simp_all add: edge_state_def)
  from step_move_or_eat [OF a b disjI2 [OF c] d0, of draw_half] e f g t
  have 1: "\<exists>s'. step demo_config demo_state draw_half = Inr s' \<and> tick s' = 1 \<and> score s' = 10 \<and>
         length (snake s') = 4 \<and> \<not> board_full demo_config (snake s') \<and>
         food s' \<notin> set (snake s')"
    by auto
  from step_move_or_eat [OF a' b' disjI2 [OF c'] d0', of draw_half] e' g' t'
  have 2: "\<exists>s'. step demo_config loop_state draw_half = Inr s' \<and> tick s' = 5 \<and> score s' = 10 \<and>
         length (snake s') = 4 \<and> food s' = \<lparr>x = 3, y = 0\<rparr>"
    by auto
  from step_move_or_eat [OF a'' b'' disjI1 [OF c''(1)] d0'', of draw_half] e'' g'' t''
  have 3: "\<exists>s'. step wrap_config edge_state draw_half = Inr s' \<and> tick s' = 8 \<and>
         snake s' = [\<lparr>x = 0, y = 0\<rparr>, \<lparr>x = 5, y = 0\<rparr>, \<lparr>x = 4, y = 0\<rparr>]"
    by auto
  from a b c d e t 1 a' b' c' d' e' t' 2 c'' b'' 3 show ?thesis by blast
qed

section \<open>Self-collision\<close>

text \<open>
  Claim C4. In an active state whose candidate head \<open>h\<close> passes the wall test, the cells
  checked are the whole snake when \<open>h\<close> is the food and the snake without its last cell
  otherwise. If \<open>h\<close> is one of the checked cells, \<open>step\<close> returns the input state with
  \<open>isGameOver\<close> set and nothing else changed; if not, the returned state is active.
  Hence a move into the cell that the tail vacates (the cell of the last segment, held
  by no other segment) ends the game exactly when the head eats there.
\<close>

theorem self_collision_check:
  assumes "\<not> isGameOver s" and "candidate_head config s = Inr h"
    and "\<not> wall_collision config h"
  shows "bodyToCheck s h = (if h = food s then snake s else butlast (snake s)) \<and>
         (self_collision s h \<longleftrightarrow> h \<in> set (bodyToCheck s h)) \<and>
         (h \<in> set (bodyToCheck s h) \<longrightarrow> step config s r = Inr (s\<lparr>isGameOver := True\<rparr>)) \<and>
         (h \<notin> set (bodyToCheck s h) \<longrightarrow> (\<exists>s'. step config s r = Inr s' \<and> \<not> isGameOver s')) \<and>
         (h = last (snake s) \<and> h \<notin> set (butlast (snake s)) \<longrightarrow>
            (\<exists>s'. step config s r = Inr s' \<and> (isGameOver s' \<longleftrightarrow> h = food s)))"
proof -
  have ne: "snake s \<noteq> []" by (rule candidate_head_nonempty [OF assms(2)])
  have b: "bodyToCheck s h = (if h = food s then snake s else butlast (snake s))"
    by (simp add: bodyToCheck_def willEat_iff)
  have hit: "step config s r = Inr (s\<lparr>isGameOver := True\<rparr>)" if "h \<in> set (bodyToCheck s h)"
    by (rule step_active(1) [OF assms that])
  have miss: "\<exists>s'. step config s r = Inr s' \<and> \<not> isGameOver s'" if "h \<notin> set (bodyToCheck s h)"
    using step_active(2,3) [OF assms that, of r] assms(1) by (cases "h = food s") simp_all
  have tail: "\<exists>s'. step config s r = Inr s' \<and> (isGameOver s' \<longleftrightarrow> h = food s)"
    if "h = last (snake s)" "h \<notin> set (butlast (snake s))"
  proof (cases "h = food s")
    case True
    from that(1) ne have "h \<in> set (snake s)" by simp
    with True b have "h \<in> set (bodyToCheck s h)" by simp
    from hit [OF this] True show ?thesis by simp
  next
    case False
    with that(2) b have "h \<notin> set (bodyToCheck s h)" by simp
    from miss [OF this] False show ?thesis by blast
  qed
  from b self_collision_iff [of s h] hit miss tail show ?thesis by blast
qed

theorem self_collision_check_witness:
  "\<not> isGameOver loop_state \<and>
   candidate_head demo_config loop_state = Inr \<lparr>x = 0, y = 1\<rparr> \<and>
   \<not> wall_collision demo_config \<lparr>x = 0, y = 1\<rparr> \<and>
   \<lparr>x = 0, y = 1\<rparr> = last (snake loop_state) \<and>
   \<lparr>x = 0, y = 1\<rparr> \<notin> set (butlast (snake loop_state)) \<and>
   \<lparr>x = 0, y = 1\<rparr> \<notin> set (bodyToCheck loop_state \<lparr>x = 0, y = 1\<rparr>) \<and>
   (\<exists>s'. step demo_config loop_state draw_zero = Inr s' \<and> \<not> isGameOver s') \<and>
   \<not> isGameOver (loop_state\<lparr>food := \<lparr>x = 0, y = 1\<rparr>\<rparr>) \<and>
   candidate_head demo_config (loop_state\<lparr>food := \<lparr>x = 0, y = 1\<rparr>\<rparr>) = Inr \<lparr>x = 0, y = 1\<rparr> \<and>
   \<lparr>x = 0, y = 1\<rparr>
     \<in> set (bodyToCheck (loop_state\<lparr>food := \<lparr>x = 0, y = 1\<rparr>\<rparr>) \<lparr>x = 0, y = 1\<rparr>) \<and>
   step demo_config (loop_state\<lparr>food := \<lparr>x = 0, y = 1\<rparr>\<rparr>) draw_zero
     = Inr (loop_state\<lparr>food := \<lparr>x = 0, y = 1\<rparr>, isGameOver := True\<rparr>)"
proof -
  let ?h = "\<lparr>x = 0, y = 1\<rparr>"
  let ?t = "loop_state\<lparr>food := ?h\<rparr>"
  have a: "\<not> isGameOver loop_state"
    and b: "candidate_head demo_config loop_state = Inr ?h"
    and c: "\<not> wall_collision demo_config ?h"
    and d: "?h = last (snake loop_state)"
    and e: "?h \<notin> set (butlast (snake loop_state))"
    and f: "?h \<notin> set (bodyToCheck loop_state ?h)"
    by (simp_all add: eval_defs demo_config_def loop_state_def)
  have a': "\<not> isGameOver ?t"
    and b': "candidate_head demo_config ?t = Inr ?h"
    and f': "?h \<in> set (bodyToCheck ?t ?h)"
    by (simp_all add: eval_defs demo_config_def loop_state_def)
  from self_collision_check [OF a b c, of draw_zero] f
  have 1: "\<exists>s'. step demo_config loop_state draw_zero = Inr s' \<and> \<not> isGameOver s'"
    by blast
  from self_collision_check [OF a' b' c, of draw_zero] f'
  have 2: "step demo_config ?t draw_zero = Inr (?t\<lparr>isGameOver := True\<rparr>)"
    by blast
  from a b c d e f 1 a' b' f' 2 show ?thesis by simp
qed

section \<open>Walls\<close>

text \<open>
  Claim C5. Without wrapping, in an active state whose candidate head lies outside
  \<open>[0, columns) \<times> [0, rows)\<close>, \<open>step\<close> returns a state with \<open>isGameOver\<close> set and with
  the \<open>snake\<close>, \<open>direction\<close>, \<open>food\<close>, \<open>score\<close> and \<open>tick\<close> of the input: the tick is not
  incremented.
\<close>

theorem step_wall_collision:
  assumes "\<not> wrap_on config" and "\<not> isGameOver s"
    and "candidate_head config s = Inr h"
    and "\<not> in_bounds config h"
  shows "\<exists>s'. step config s r = Inr s' \<and> isGameOver s' \<and> snake s' = snake s \<and>
           direction s' = direction s \<and> food s' = food s \<and> score s' = score s \<and>
           tick s' = tick s"
proof -
  from assms(1,4) have "wall_collision config h"
    by (auto simp: wall_collision_def in_bounds_def)
  with assms(2,3) have "step config s r = Inr (s\<lparr>isGameOver := True\<rparr>)"
    by (simp add: step_def)
  then show ?thesis by simp
qed

theorem step_wall_collision_witness:
  "\<not> wrap_on demo_config \<and> \<not> isGameOver edge_state \<and>
   candidate_head demo_config edge_state = Inr \<lparr>x = 6, y = 0\<rparr> \<and>
   \<not> in_bounds demo_config \<lparr>x = 6, y = 0\<rparr> \<and>
   (\<exists>s'. step demo_config edge_state draw_zero = Inr s' \<and> isGameOver s' \<and> tick s' = 7 \<and>
         score s' = 20 \<and> snake s' = snake edge_state)"
proof -
  have a: "\<not> wrap_on demo_config" and b: "\<not> isGameOver edge_state"
    and c: "candidate_head demo_config edge_state = Inr \<lparr>x = 6, y = 0\<rparr>"
    and d: "\<not> in_bounds demo_config \<lparr>x = 6, y = 0\<rparr>"
    by (simp_all add: eval_defs in_bounds_def demo_config_def edge_state_def)
  have e: "tick edge_state = 7" "score edge_state = 20"
    by (simp_all add: edge_state_def)
  from step_wall_collision [OF a b c d, of draw_zero] e
  have "\<exists>s'. step demo_config edge_state draw_zero = Inr s' \<and> isGameOver s' \<and> tick s' = 7 \<and>
         score s' = 20 \<and> snake s' = snake edge_state"
    by auto
  with a b c d show ?thesis by blast
qed

section \<open>Food placement\<close>

text \<open>
  Claim C6. \<open>spawnFood\<close> returns the sentinel \<open>(-1, -1)\<close> if and only if the board is
  full, that is, every cell of the grid is occupied by the given body. The array
  \<open>freeCells\<close> built by its loops is the row-major enumeration of the grid without the
  occupied cells. When the board is not full, the result is the element of \<open>freeCells\<close>
  at the random index, which is below the length of the array; it lies on the board and
  on no cell of the body.
\<close>

theorem spawnFood_contract:
  "(spawnFood config body r = sentinel \<longleftrightarrow> board_full config body) \<and>
   (board_full config body \<longleftrightarrow>
      (\<forall>i j. 0 \<le> i \<and> i < cols config \<and> 0 \<le> j \<and> j < rows config
             \<longrightarrow> \<lparr>x = i, y = j\<rparr> \<in> set body)) \<and>
   freeCells config body = filter (\<lambda>p. p \<notin> set body) (grid_cells config) \<and>
   (\<not> board_full config body \<longrightarrow>
      in_bounds config (spawnFood config body r) \<and>
      spawnFood config body r \<notin> set body \<and>
      random_index r (length (freeCells config body)) < length (freeCells config body) \<and>
      spawnFood config body r
        = freeCells config body ! random_index r (length (freeCells config body)))"
proof -
  have free: "in_bounds config (spawnFood config body r) \<and> spawnFood config body r \<notin> set body"
    if "\<not> board_full config body"
    using spawnFood_free(3) [OF that, of r] by (simp add: set_freeCells)
  have "\<not> in_bounds config sentinel"
    by (simp add: in_bounds_def sentinel_def)
  with free have "spawnFood config body r = sentinel \<longleftrightarrow> board_full config body"
    using spawnFood_full [of config body r] by metis
  moreover note board_full_iff [of config body] freeCells_eq [of config body]
  moreover have "random_index r (length (freeCells config body)) < length (freeCells config body)"
     and "spawnFood config body r
        = freeCells config body ! random_index r (length (freeCells config body))"
    if "\<not> board_full config body"
    using spawnFood_free(1,2) [OF that, of r] by simp_all
  ultimately show ?thesis using free by blast
qed

theorem spawnFood_contract_witness:
  "\<not> board_full \<lparr>cols = 2, rows = 2, initialLength = None, wrap = None\<rparr> [\<lparr>x = 0, y = 0\<rparr>] \<and>
   spawnFood \<lparr>cols = 2, rows = 2, initialLength = None, wrap = None\<rparr> [\<lparr>x = 0, y = 0\<rparr>] draw_half
     = \<lparr>x = 0, y = 1\<rparr> \<and>
   board_full \<lparr>cols = 1, rows = 1, initialLength = None, wrap = None\<rparr> [\<lparr>x = 0, y = 0\<rparr>] \<and>
   spawnFood \<lparr>cols = 1, rows = 1, initialLength = None, wrap = None\<rparr> [\<lparr>x = 0, y = 0\<rparr>] draw_half
     = sentinel"
proof -
  let ?c = "\<lparr>cols = 2, rows = 2, initialLength = None, wrap = None\<rparr>"
  let ?d = "\<lparr>cols = 1, rows = 1, initialLength = None, wrap = None\<rparr>"
  let ?b = "[\<lparr>x = 0, y = 0\<rparr>]"
  have a: "\<not> board_full ?c ?b"
    by (simp add: board_full_def grid_cells_def upto_rec1)
  have b: "board_full ?d ?b"
    by (simp add: board_full_def grid_cells_def upto_rec1)
  have c: "filter (\<lambda>p. p \<notin> set ?b) (grid_cells ?c)
             = [\<lparr>x = 1, y = 0\<rparr>, \<lparr>x = 0, y = 1\<rparr>, \<lparr>x = 1, y = 1\<rparr>]"
    by (simp add: grid_cells_def upto_rec1)
  have d: "random_index draw_half
             (length [\<lparr>x = 1, y = 0\<rparr>, \<lparr>x = 0, y = 1\<rparr>, \<lparr>x = 1, y = 1 :: int\<rparr>]) = 1"
    by (simp add: random_index_def Rep_draw_half)
  from spawnFood_contract [of ?c ?b draw_half] a
  have e: "spawnFood ?c ?b draw_half
             = freeCells ?c ?b ! random_index draw_half (length (freeCells ?c ?b))"
    and f: "freeCells ?c ?b = filter (\<lambda>p. p \<notin> set ?b) (grid_cells ?c)"
    by blast+
  from f c have g: "freeCells ?c ?b = [\<lparr>x = 1, y = 0\<rparr>, \<lparr>x = 0, y = 1\<rparr>, \<lparr>x = 1, y = 1\<rparr>]"
    by (rule trans)
  have 1: "spawnFood ?c ?b draw_half = \<lparr>x = 0, y = 1\<rparr>"
    unfolding e g d by simp
  from spawnFood_contract [of ?d ?b draw_half] b
  have 2: "spawnFood ?d ?b draw_half = sentinel"
    by simp
  from a 1 b 2 show ?thesis by simp
qed

section \<open>The initial state\<close>

text \<open>
  Claim C7, as stated: for every configuration with at least one column and one row,
  \<open>createInitialState\<close> returns a state and never fails. With an initial length of
  \<open>2^32\<close> on the 12 by 12 board, \<open>Array.from\<close> is asked for an array of \<open>2^32\<close> cells and
  throws a \<open>RangeError\<close>: no state is returned.
\<close>

theorem createInitialState_range_counterexample:
  "1 \<le> cols long_config \<and> 1 \<le> rows long_config \<and>
   initialLength long_config = Some 4294967296 \<and>
   createInitialState long_config draw_zero = Inl InvalidArrayLength"
  by (simp add: createInitialState_def long_config_def Let_def)

text \<open>
  Claim C7, amended. For a configuration with at least one column and one row, whose
  \<open>initialLength\<close> is absent or at most \<open>2^32 - 1\<close>, \<open>createInitialState\<close> does not fail.
  It returns a state whose snake has \<open>max(3, initialLength)\<close> cells, or \<open>max(3, 4)\<close> when
  \<open>initialLength\<close> is absent; the head is at \<open>(floor(columns/2), floor(rows/2))\<close> and
  segment \<open>i\<close> is at \<open>(head.x - i, head.y)\<close>; the direction is \<open>right\<close>; \<open>score\<close>,
  \<open>tick\<close> and \<open>isGameOver\<close> are 0, 0 and false; the food is placed by \<open>spawnFood\<close> over
  that snake.
\<close>

theorem createInitialState_contract:
  assumes "1 \<le> cols config" and "1 \<le> rows config"
    and "case initialLength config of None \<Rightarrow> True | Some n \<Rightarrow> n \<le> 4294967295"
  shows "\<exists>s. createInitialState config r = Inr s \<and>
           int (length (snake s))
             = max 3 (case initialLength config of None \<Rightarrow> 4 | Some n \<Rightarrow> n) \<and>
           hd (snake s) = \<lparr>x = cols config div 2, y = rows config div 2\<rparr> \<and>
           (\<forall>i < length (snake s).
              snake s ! i = \<lparr>x = cols config div 2 - int i, y = rows config div 2\<rparr>) \<and>
           direction s = right \<and> score s = 0 \<and> tick s = 0 \<and> \<not> isGameOver s \<and>
           food s = spawnFood config (snake s) r"
proof -
  define len where "len = max 3 (case initialLength config of None \<Rightarrow> 4 | Some n \<Rightarrow> n)"
  define body where
    "body = map (\<lambda>i. \<lparr>x = cols config div 2 - int i, y = rows config div 2\<rparr>) [0..<nat len]"
  define s where
    "s = \<lparr>snake = body, direction = right, food = spawnFood config body r,
          score = 0, isGameOver = False, tick = 0\<rparr>"
  have pos: "0 < nat len" by (simp add: len_def)
  from assms(3) have le: "\<not> len > 4294967295"
    by (simp add: len_def split: option.splits)
  then have "createInitialState config r = Inr s"
    by (simp add: createInitialState_def Let_def len_def [symmetric] body_def s_def)
  moreover have "int (length (snake s)) = len"
    using pos by (simp add: s_def body_def)
  moreover have "hd (snake s) = \<lparr>x = cols config div 2, y = rows config div 2\<rparr>"
    using pos by (simp add: s_def body_def hd_map upt_conv_Cons)
  moreover have "\<forall>i < length (snake s).
            snake s ! i = \<lparr>x = cols config div 2 - int i, y = rows config div 2\<rparr>"
    by (simp add: s_def body_def)
  moreover have "direction s = right" "score s = 0" "tick s = 0" "\<not> isGameOver s"
    "food s = spawnFood config (snake s) r"
    by (simp_all add: s_def)
  ultimately show ?thesis
    unfolding len_def by blast
qed

theorem createInitialState_contract_witness:
  "1 \<le> cols spec_config \<and> 1 \<le> rows spec_config \<and>
   (case initialLength spec_config of None \<Rightarrow> True | Some n \<Rightarrow> n \<le> 4294967295) \<and>
   (\<exists>s. createInitialState spec_config draw_zero = Inr s \<and>
        length (snake s) = 5 \<and> hd (snake s) = \<lparr>x = 6, y = 6\<rparr> \<and>
        snake s ! 4 = \<lparr>x = 2, y = 6\<rparr> \<and> direction s = right)"
proof -
  have a: "1 \<le> cols spec_config" and b: "1 \<le> rows spec_config"
    and l: "case initialLength spec_config of None \<Rightarrow> True | Some n \<Rightarrow> n \<le> 4294967295"
    by (simp_all add: spec_config_def)
  have c: "cols spec_config div 2 = 6" "rows spec_config div 2 = 6"
    "max 3 (case initialLength spec_config of None \<Rightarrow> 4 | Some n \<Rightarrow> n) = 5"
    by (simp_all add: spec_config_def)
  from createInitialState_contract [OF a b l, of draw_zero] c
  obtain s where s: "createInitialState spec_config draw_zero = Inr s"
    "int (length (snake s)) = 5" "hd (snake s) = \<lparr>x = 6, y = 6\<rparr>"
    "\<forall>i < length (snake s). snake s ! i = \<lparr>x = 6 - int i, y = 6\<rparr>"
    "direction s = right"
    by auto
  from s(2,4) have "length (snake s) = 5" "snake s ! 4 = \<lparr>x = 2, y = 6\<rparr>"
    by simp_all
  with a b l s(1,3,5) show ?thesis by blast
qed

section \<open>Changing direction\<close>

text \<open>
  Claim C8. The opposite of a direction is its geometric opposite: \<open>up\<close> and \<open>down\<close>
  are opposite to each other, \<open>left\<close> and \<open>right\<close> are, and a move in the opposite
  direction undoes a move. A request for the exact opposite of the current direction
  leaves the state as it is; any other request, the current direction included,
  replaces the field \<open>direction\<close>; in all cases \<open>snake\<close>, \<open>food\<close>, \<open>score\<close>, \<open>tick\<close> and
  \<open>isGameOver\<close> are left unchanged.
\<close>

theorem changeDirection_contract:
  "opposite up = down \<and> opposite down = up \<and>
   opposite left = right \<and> opposite right = left \<and>
   move (opposite (direction s)) (move (direction s) p) = p \<and>
   (dir = opposite (direction s) \<longrightarrow> changeDirection s dir = s) \<and>
   (dir \<noteq> opposite (direction s) \<longrightarrow> changeDirection s dir = s\<lparr>direction := dir\<rparr>) \<and>
   snake (changeDirection s dir) = snake s \<and>
   food (changeDirection s dir) = food s \<and>
   score (changeDirection s dir) = score s \<and>
   tick (changeDirection s dir) = tick s \<and>
   isGameOver (changeDirection s dir) = isGameOver s"
proof -
  have "move (opposite d) (move d p) = p" for d
    by (cases d) simp_all
  then show ?thesis
    by (auto simp: changeDirection_def)
qed

theorem changeDirection_contract_witness:
  "changeDirection (demo_state\<lparr>direction := up\<rparr>) down = demo_state\<lparr>direction := up\<rparr> \<and>
   changeDirection (demo_state\<lparr>direction := down\<rparr>) up = demo_state\<lparr>direction := down\<rparr> \<and>
   changeDirection (demo_state\<lparr>direction := left\<rparr>) right = demo_state\<lparr>direction := left\<rparr> \<and>
   changeDirection (demo_state\<lparr>direction := right\<rparr>) left = demo_state\<lparr>direction := right\<rparr> \<and>
   changeDirection (demo_state\<lparr>direction := right\<rparr>) up = demo_state\<lparr>direction := up\<rparr> \<and>
   changeDirection (demo_state\<lparr>direction := right\<rparr>) right
     = demo_state\<lparr>direction := right\<rparr> \<and>
   move left (move right \<lparr>x = 2, y = 0\<rparr>) = \<lparr>x = 2, y = 0\<rparr>"
  using changeDirection_contract [of "demo_state\<lparr>direction := up\<rparr>" "\<lparr>x = 2, y = 0\<rparr>" down]
    changeDirection_contract [of "demo_state\<lparr>direction := down\<rparr>" "\<lparr>x = 2, y = 0\<rparr>" up]
    changeDirection_contract [of "demo_state\<lparr>direction := left\<rparr>" "\<lparr>x = 2, y = 0\<rparr>" right]
    changeDirection_contract [of "demo_state\<lparr>direction := right\<rparr>" "\<lparr>x = 2, y = 0\<rparr>" left]
    changeDirection_contract [of "demo_state\<lparr>direction := right\<rparr>" "\<lparr>x = 2, y = 0\<rparr>" up]
    changeDirection_contract [of "demo_state\<lparr>direction := right\<rparr>" "\<lparr>x = 2, y = 0\<rparr>" right]
  by simp

section \<open>Wrapping\<close>



section \<open>The sentinel food\<close>

text \<open>
  Claim C10. On a board of at least one column and one row, in a state whose head lies
  on the board and whose food is the sentinel \<open>(-1, -1)\<close>, \<open>step\<close> never takes the eating
  branch: a candidate head that passes the wall test is not the food, the score of the
  returned state is that of the input, and its snake is not longer than the input's.
\<close>

theorem sentinel_food_inedible:
  assumes "1 \<le> cols config" and "1 \<le> rows config"
    and "snake s = head # rest" and "in_bounds config head"
    and "food s = sentinel"
  shows "\<exists>s'. step config s r = Inr s' \<and> score s' = score s \<and>
           length (snake s') \<le> length (snake s) \<and>
           (\<forall>h. candidate_head config s = Inr h \<and> \<not> wall_collision config h \<longrightarrow> \<not> willEat s h)"
proof -
  have ne: "\<not> willEat s h" if "candidate_head config s = Inr h" "\<not> wall_collision config h" for h
  proof (cases "wrap_on config")
    case True
    from candidate_wrapped [OF True assms(1-4)] that(1) assms(1,2)
    have "in_bounds config h" by (auto simp: in_bounds_def)
    then show ?thesis using assms(5) by (auto simp: willEat_def sentinel_def in_bounds_def)
  next
    case False
    with that(2) show ?thesis
      using assms(5) by (auto simp: willEat_def sentinel_def wall_collision_def)
  qed
  have ex: "\<exists>h. candidate_head config s = Inr h"
  proof (cases "wrap_on config")
    case True
    from candidate_wrapped [OF True assms(1-4)] show ?thesis by blast
  next
    case False
    then show ?thesis using assms(3) by (simp add: candidate_head_def wrap_point_def)
  qed
  then obtain h where h: "candidate_head config s = Inr h" by blast
  have "\<exists>s'. step config s r = Inr s' \<and> score s' = score s \<and>
           length (snake s') \<le> length (snake s)"
  proof (cases "wall_collision config h")
    case True
    then show ?thesis using h by (simp add: step_def)
  next
    case False
    from ne [OF h False] show ?thesis
      using h False assms(3) by (simp add: step_def Let_def)
  qed
  with ne show ?thesis by blast
qed

theorem sentinel_food_inedible_witness:
  "1 \<le> cols demo_config \<and> 1 \<le> rows demo_config \<and>
   1 \<le> cols wrap_config \<and> 1 \<le> rows wrap_config \<and>
   snake (edge_state\<lparr>food := sentinel\<rparr>)
     = \<lparr>x = 5, y = 0\<rparr> # [\<lparr>x = 4, y = 0\<rparr>, \<lparr>x = 3, y = 0\<rparr>] \<and>
   in_bounds demo_config \<lparr>x = 5, y = 0\<rparr> \<and> in_bounds wrap_config \<lparr>x = 5, y = 0\<rparr> \<and>
   food (edge_state\<lparr>food := sentinel\<rparr>) = sentinel \<and>
   (\<exists>s'. step demo_config (edge_state\<lparr>food := sentinel\<rparr>) draw_zero = Inr s' \<and>
         score s' = 20 \<and> length (snake s') \<le> 3) \<and>
   (\<exists>s'. step wrap_config (edge_state\<lparr>food := sentinel\<rparr>) draw_zero = Inr s' \<and>
         score s' = 20 \<and> length (snake s') \<le> 3) \<and>
   candidate_head wrap_config (edge_state\<lparr>food := sentinel\<rparr>) = Inr \<lparr>x = 0, y = 0\<rparr> \<and>
   \<not> wall_collision wrap_config \<lparr>x = 0, y = 0\<rparr> \<and>
   \<not> willEat (edge_state\<lparr>food := sentinel\<rparr>) \<lparr>x = 0, y = 0\<rparr>"
proof -
  let ?s = "edge_state\<lparr>food := sentinel\<rparr>"
  have a: "1 \<le> cols demo_config" and b: "1 \<le> rows demo_config"
    and a': "1 \<le> cols wrap_config" and b': "1 \<le> rows wrap_config"
    and c: "snake ?s = \<lparr>x = 5, y = 0\<rparr> # [\<lparr>x = 4, y = 0\<rparr>, \<lparr>x = 3, y = 0\<rparr>]"
    and d: "in_bounds demo_config \<lparr>x = 5, y = 0\<rparr>"
    and d': "in_bounds wrap_config \<lparr>x = 5, y = 0\<rparr>"
    and e: "food ?s = sentinel"
    by (simp_all add: in_bounds_def demo_config_def wrap_config_def edge_state_def)
  have f: "score ?s = 20" "length (snake ?s) = 3"
    by (simp_all add: edge_state_def)
  have g: "candidate_head wrap_config ?s = Inr \<lparr>x = 0, y = 0\<rparr>"
    and h: "\<not> wall_collision wrap_config \<lparr>x = 0, y = 0\<rparr>"
    by (simp_all add: eval_defs wrap_config_def edge_state_def)
  from sentinel_food_inedible [OF a b c d e, of draw_zero] f
  have 1: "\<exists>s'. step demo_config ?s draw_zero = Inr s' \<and> score s' = 20 \<and> length (snake s') \<le> 3"
    by auto
  from sentinel_food_inedible [OF a' b' c d' e, of draw_zero] f g h
  have 2: "\<exists>s'. step wrap_config ?s draw_zero = Inr s' \<and> score s' = 20 \<and> length (snake s') \<le> 3"
    and 3: "\<not> willEat ?s \<lparr>x = 0, y = 0\<rparr>"
    by auto
  from a b a' b' c d d' e 1 2 g h 3 show ?thesis by blast
qed

end
